theory Spec2Isabelle
  imports Main
begin

section \<open>JavaScript values\<close>

text \<open>
  The module is dynamically typed at run time: the universal converters inspect
  \<^verbatim>\<open>typeof\<close> and \<^verbatim>\<open>Array.isArray\<close> of their argument. Values are
  therefore one datatype. Numbers are the integers and NaN (the only numbers the module
  itself produces, through \<^verbatim>\<open>parseInt\<close>), exact at any size where the language
  rounds beyond \<open>2^53\<close>; strings are lists of 8-bit characters, read as Latin-1 code
  units. An object is the list of its own enumerable properties in
  enumeration order.
\<close>

datatype jsval =
    JUndefined
  | JNull
  | JBool bool
  | JNum int
  | JNaN
  | JStr string
  | JArr "jsval list"
  | JObj "(string \<times> jsval) list"

type_synonym jsobj = "(string \<times> jsval) list"

text \<open>
  The two ways a call can throw: the module's own
  \<^verbatim>\<open>new Error('Unknown cookies format')\<close>, and the TypeError of the runtime
  when a method is called on a value that does not have it or a property is read from
  \<^verbatim>\<open>null\<close> or \<^verbatim>\<open>undefined\<close>.
\<close>

datatype error = UnknownFormat | TypeError

subsection \<open>Characters and strings\<close>

definition is_digit :: "char \<Rightarrow> bool" where
  "is_digit c = (48 \<le> (of_char c :: nat) \<and> (of_char c :: nat) \<le> 57)"

definition digit_val :: "char \<Rightarrow> nat" where
  "digit_val c = (of_char c :: nat) - 48"

definition digit_char :: "nat \<Rightarrow> char" where
  "digit_char d = char_of (48 + d)"

text \<open>Whitespace as the regular expression class \<^verbatim>\<open>\s\<close> and \<^verbatim>\<open>parseInt\<close> see it,
  on 8-bit characters: TAB, LF, VT, FF, CR, space and the no-break space.\<close>

definition is_space :: "char \<Rightarrow> bool" where
  "is_space c = ((of_char c :: nat) \<in> {9, 10, 11, 12, 13, 32, 160})"

text \<open>\<^verbatim>\<open>String.prototype.toLowerCase\<close> on Latin-1: A to Z and the accented capitals
  (0xC0 to 0xDE without the multiplication sign 0xD7) move up by 32.\<close>

definition lower_char :: "char \<Rightarrow> char" where
  "lower_char c =
     (let n = (of_char c :: nat)
      in if (65 \<le> n \<and> n \<le> 90) \<or> (192 \<le> n \<and> n \<le> 222 \<and> n \<noteq> 215)
         then char_of (n + 32) else c)"

definition toLowerCase :: "string \<Rightarrow> string" where
  "toLowerCase s = map lower_char s"

fun show_nat :: "nat \<Rightarrow> string" where
  "show_nat n = (if n < 10 then [digit_char n] else show_nat (n div 10) @ [digit_char (n mod 10)])"

declare show_nat.simps [simp del]

definition show_int :: "int \<Rightarrow> string" where
  "show_int i = (if i < 0 then CHR ''-'' # show_nat (nat (- i)) else show_nat (nat i))"

definition digits_value :: "string \<Rightarrow> int" where
  "digits_value s = foldl (\<lambda>n c. 10 * n + int (digit_val c)) 0 s"

fun cons_head :: "char \<Rightarrow> string list \<Rightarrow> string list" where
  "cons_head c [] = [[c]]"
| "cons_head c (p # ps) = (c # p) # ps"

text \<open>\<^verbatim>\<open>s.split(sep)\<close> for a one-character string separator: every occurrence splits,
  and the empty string gives one empty part.\<close>

fun split_char :: "char \<Rightarrow> string \<Rightarrow> string list" where
  "split_char sep [] = [[]]"
| "split_char sep (c # cs) =
     (if c = sep then [] # split_char sep cs else cons_head c (split_char sep cs))"

text \<open>
  \<^verbatim>\<open>s.split(re)\<close> for a regular expression that matches a semicolon and then
  swallows following characters of a class: all of them (\<open>greedy\<close>, as
  \<^verbatim>\<open>/;\s*/\<close>) or at most one (as \<^verbatim>\<open>/; |;/\<close>). The flag \<open>skip\<close> says that
  a semicolon has just been read and the swallowing is still going on.
\<close>

fun split_semi :: "(char \<Rightarrow> bool) \<Rightarrow> bool \<Rightarrow> bool \<Rightarrow> string \<Rightarrow> string list" where
  "split_semi sw greedy skip [] = [[]]"
| "split_semi sw greedy skip (c # cs) =
     (if skip \<and> sw c then split_semi sw greedy greedy cs
      else if c = CHR '';'' then [] # split_semi sw greedy True cs
      else cons_head c (split_semi sw greedy False cs))"

text \<open>The constant \<^verbatim>\<open>delimiter = /; |;/\<close> and the expression \<^verbatim>\<open>/;\s*/\<close>.\<close>

definition split_delimiter :: "string \<Rightarrow> string list" where
  "split_delimiter s = split_semi (\<lambda>c. c = CHR '' '') False False s"

definition split_semi_ws :: "string \<Rightarrow> string list" where
  "split_semi_ws s = split_semi is_space True False s"

definition connector :: string where
  "connector = ''; ''"

fun join :: "string \<Rightarrow> string list \<Rightarrow> string" where
  "join sep [] = []"
| "join sep [x] = x"
| "join sep (x # y # ys) = x @ sep @ join sep (y # ys)"

text \<open>\<^verbatim>\<open>data[0]\<close> and the second element of a destructured array: reading past the
  end gives \<^verbatim>\<open>undefined\<close>.\<close>

definition first :: "jsval list \<Rightarrow> jsval" where
  "first xs = (case xs of [] \<Rightarrow> JUndefined | x # _ \<Rightarrow> x)"

definition second_str :: "string list \<Rightarrow> jsval" where
  "second_str ps = (case ps of _ # v # _ \<Rightarrow> JStr v | _ \<Rightarrow> JUndefined)"

definition first_str :: "string list \<Rightarrow> string" where
  "first_str ps = (case ps of [] \<Rightarrow> [] | p # _ \<Rightarrow> p)"

subsection \<open>Run-time type tests\<close>

definition typeof :: "jsval \<Rightarrow> string" where
  "typeof v =
     (case v of
        JUndefined \<Rightarrow> ''undefined''
      | JNull \<Rightarrow> ''object''
      | JBool _ \<Rightarrow> ''boolean''
      | JNum _ \<Rightarrow> ''number''
      | JNaN \<Rightarrow> ''number''
      | JStr _ \<Rightarrow> ''string''
      | JArr _ \<Rightarrow> ''object''
      | JObj _ \<Rightarrow> ''object'')"

definition isArray :: "jsval \<Rightarrow> bool" where
  "isArray v = (case v of JArr _ \<Rightarrow> True | _ \<Rightarrow> False)"

text \<open>The content of a value once a type test has said what it is.\<close>

definition elems :: "jsval \<Rightarrow> jsval list" where
  "elems v = (case v of JArr xs \<Rightarrow> xs | _ \<Rightarrow> [])"

definition str_of :: "jsval \<Rightarrow> string" where
  "str_of v = (case v of JStr s \<Rightarrow> s | _ \<Rightarrow> [])"

subsection \<open>Conversions of the language\<close>

text \<open>\<^verbatim>\<open>ToString\<close>, as string concatenation and \<^verbatim>\<open>parseInt\<close> apply it.\<close>

fun to_string :: "jsval \<Rightarrow> string" where
  "to_string JUndefined = ''undefined''"
| "to_string JNull = ''null''"
| "to_string (JBool b) = (if b then ''true'' else ''false'')"
| "to_string (JNum n) = show_int n"
| "to_string JNaN = ''NaN''"
| "to_string (JStr s) = s"
| "to_string (JArr xs) =
     join '','' (map (\<lambda>x. if x = JUndefined \<or> x = JNull then [] else to_string x) xs)"
| "to_string (JObj ps) = ''[object Object]''"

text \<open>
  \<^verbatim>\<open>parseInt(v)\<close> with no radix: the argument becomes a string, leading whitespace and
  one sign are dropped, a prefix \<^verbatim>\<open>0x\<close> or \<^verbatim>\<open>0X\<close> selects base 16, and the longest
  run of digits of the base is read; no digit gives NaN.
\<close>

definition is_hex_digit :: "char \<Rightarrow> bool" where
  "is_hex_digit c =
     (is_digit c \<or> (65 \<le> (of_char c :: nat) \<and> (of_char c :: nat) \<le> 70)
        \<or> (97 \<le> (of_char c :: nat) \<and> (of_char c :: nat) \<le> 102))"

definition hex_val :: "char \<Rightarrow> nat" where
  "hex_val c =
     (if is_digit c then digit_val c
      else if (of_char c :: nat) \<le> 70 then (of_char c :: nat) - 55
      else (of_char c :: nat) - 87)"

definition parseInt :: "jsval \<Rightarrow> jsval" where
  "parseInt v =
     (let s = dropWhile is_space (to_string v);
          neg = (case s of c # _ \<Rightarrow> c = CHR ''-'' | [] \<Rightarrow> False);
          s1 = (case s of c # r \<Rightarrow> if c = CHR ''-'' \<or> c = CHR ''+'' then r else s | [] \<Rightarrow> s);
          hex = (take 2 s1 = ''0x'' \<or> take 2 s1 = ''0X'');
          ds = (if hex then takeWhile is_hex_digit (drop 2 s1) else takeWhile is_digit s1);
          n = (if hex then foldl (\<lambda>n c. 16 * n + int (hex_val c)) 0 ds else digits_value ds)
      in if ds = [] then JNaN
         else JNum (if neg then - n else n))"

section \<open>Objects\<close>

text \<open>
  Own properties are enumerated with the array indices first, in ascending numeric
  order, and the other string keys after them in the order they were created. An array
  index is the canonical decimal form of an integer below \<open>2^32 - 1\<close>.
\<close>

definition is_array_index :: "string \<Rightarrow> bool" where
  "is_array_index k =
     (k \<noteq> [] \<and> list_all is_digit k \<and> (k = ''0'' \<or> hd k \<noteq> CHR ''0'')
        \<and> digits_value k < 4294967295)"

definition has_key :: "string \<Rightarrow> (string \<times> 'a) list \<Rightarrow> bool" where
  "has_key k ps = (k \<in> set (map fst ps))"

definition key_before :: "string \<Rightarrow> string \<Rightarrow> bool" where
  "key_before k' k = (is_array_index k' \<and> digits_value k' < digits_value k)"

text \<open>\<^verbatim>\<open>o[k] = v\<close>: an existing property keeps its place, a new one is created at its
  place in the enumeration order.\<close>

definition obj_set :: "string \<Rightarrow> 'a \<Rightarrow> (string \<times> 'a) list \<Rightarrow> (string \<times> 'a) list" where
  "obj_set k v ps =
     (if has_key k ps then map (\<lambda>(k', v'). if k' = k then (k', v) else (k', v')) ps
      else if is_array_index k
        then takeWhile (\<lambda>(k', _). key_before k' k) ps @ (k, v) #
             dropWhile (\<lambda>(k', _). key_before k' k) ps
      else ps @ [(k, v)])"

text \<open>The spread \<^verbatim>\<open>{...a, ...b}\<close>: the properties of the source are defined on the
  target one by one, whatever their names.\<close>

definition obj_assign :: "(string \<times> 'a) list \<Rightarrow> (string \<times> 'a) list \<Rightarrow> (string \<times> 'a) list" where
  "obj_assign target source = fold (\<lambda>(k, v) acc. obj_set k v acc) source target"

text \<open>
  \<^verbatim>\<open>Object.assign(target, source)\<close> on an ordinary target assigns instead of defining,
  and the assignment to \<^verbatim>\<open>__proto__\<close> runs the setter every ordinary object inherits:
  no own property is created. (The setter ignores a value that is no object; the values
  assigned here are strings or \<^verbatim>\<open>undefined\<close>.)
\<close>

definition obj_put :: "string \<Rightarrow> 'a \<Rightarrow> (string \<times> 'a) list \<Rightarrow> (string \<times> 'a) list" where
  "obj_put k v ps = (if k = ''__proto__'' then ps else obj_set k v ps)"

definition object_assign :: "(string \<times> 'a) list \<Rightarrow> (string \<times> 'a) list \<Rightarrow> (string \<times> 'a) list" where
  "object_assign target source = fold (\<lambda>(k, v) acc. obj_put k v acc) source target"

definition get :: "jsobj \<Rightarrow> string \<Rightarrow> jsval" where
  "get ps k = (case map_of ps k of None \<Rightarrow> JUndefined | Some v \<Rightarrow> v)"

text \<open>The own enumerable properties a spread copies from any value: none for
  \<^verbatim>\<open>undefined\<close>, \<^verbatim>\<open>null\<close>, booleans and numbers, the indexed characters of a
  string, the indexed elements of an array.\<close>

fun own_entries :: "jsval \<Rightarrow> jsobj" where
  "own_entries (JObj ps) = ps"
| "own_entries (JArr xs) = zip (map show_nat [0 ..< length xs]) xs"
| "own_entries (JStr s) = zip (map show_nat [0 ..< length s]) (map (\<lambda>c. JStr [c]) s)"
| "own_entries _ = []"

section \<open>The header primitives\<close>

text \<open>
  \<^verbatim>\<open>parse\<close> and \<^verbatim>\<open>serialize\<close> are re-exported from the package
  \<^verbatim>\<open>cookie\<close>, whose code is not part of the repository. They are modelled from
  the specification's contract of the header parser and header builder.
\<close>

text \<open>
  Modelled from the spec: the function \<^verbatim>\<open>parse\<close> of the package \<^verbatim>\<open>cookie\<close>
  (\<open>parse_pair\<close> is its treatment of one segment). The header is split on
  \<^verbatim>\<open>"; "\<close> or \<^verbatim>\<open>";"\<close>, every segment on its first \<^verbatim>\<open>"="\<close>, nothing is trimmed,
  a segment without \<^verbatim>\<open>"="\<close> has the value \<^verbatim>\<open>undefined\<close>, the empty header gives the
  empty mapping, and of two segments with one name the one processed last wins.
\<close>

definition parse_pair :: "string \<Rightarrow> string \<times> jsval" where
  "parse_pair seg =
     (takeWhile (\<lambda>c. c \<noteq> CHR ''='') seg,
      if CHR ''='' \<in> set seg then JStr (tl (dropWhile (\<lambda>c. c \<noteq> CHR ''='') seg))
      else JUndefined)"

definition parse :: "string \<Rightarrow> jsobj" where
  "parse header =
     (if header = [] then []
      else fold (\<lambda>seg acc. obj_set (fst (parse_pair seg)) (snd (parse_pair seg)) acc)
             (split_delimiter header) [])"

text \<open>
  Modelled from the spec: the percent-encoding of values that the builder delegates to
  the package, as \<^verbatim>\<open>encodeURIComponent\<close> does it on Latin-1 text. Letters, digits and
  \<^verbatim>\<open>- _ . ! ~ * ' ( )\<close> are written as they are; any other character becomes
  \<^verbatim>\<open>%XX\<close> for each byte of its UTF-8 form, one byte below 128 and two from there on.
\<close>

definition is_unreserved :: "char \<Rightarrow> bool" where
  "is_unreserved c =
     (let n = (of_char c :: nat)
      in (65 \<le> n \<and> n \<le> 90) \<or> (97 \<le> n \<and> n \<le> 122) \<or> (48 \<le> n \<and> n \<le> 57)
         \<or> c \<in> set ''-_.!~*'' \<or> n = 39 \<or> n = 40 \<or> n = 41)"

definition hex_char :: "nat \<Rightarrow> char" where
  "hex_char d = (if d < 10 then char_of (48 + d) else char_of (55 + d))"

definition percent :: "nat \<Rightarrow> string" where
  "percent b = [CHR ''%'', hex_char (b div 16), hex_char (b mod 16)]"

definition encode_char :: "char \<Rightarrow> string" where
  "encode_char c =
     (let n = (of_char c :: nat)
      in if is_unreserved c then [c]
         else if n < 128 then percent n
         else percent (192 + n div 64) @ percent (128 + n mod 64))"

definition encodeURIComponent :: "string \<Rightarrow> string" where
  "encodeURIComponent s = concat (map encode_char s)"

text \<open>
  Modelled from the spec: the function \<^verbatim>\<open>serialize\<close> of the package \<^verbatim>\<open>cookie\<close>
  called with a name and a value only. The pair is written \<^verbatim>\<open>name=value\<close>, both
  converted to strings, the name as it is and the value percent-encoded.
\<close>

definition serialize :: "jsval \<Rightarrow> jsval \<Rightarrow> string" where
  "serialize name val = to_string name @ ''='' @ encodeURIComponent (to_string val)"

text \<open>
  Modelled from the spec: the function \<^verbatim>\<open>serialize\<close> of the package \<^verbatim>\<open>cookie\<close>
  called with options, in the definitions from here to \<open>serialize_opts\<close>. The wire
  form is \<^verbatim>\<open>name=value; Attr1; Attr2=val2\<close>: the recognized attributes in
  declared-field order under their wire names (\<open>maxAge\<close> as \<^verbatim>\<open>Max-Age\<close>,
  \<open>expires\<close> as a formatted date), then every other key under its lowercase name. An
  attribute whose value is \<^verbatim>\<open>true\<close> is a bare flag, one whose value is
  \<^verbatim>\<open>false\<close> is not written.

  An option is a value passed as it is, or the \<^verbatim>\<open>Date\<close> object that
  \<^verbatim>\<open>new Date(v)\<close> builds from \<open>v\<close>.
\<close>

datatype optval = Plain jsval | Date jsval

type_synonym options = "(string \<times> optval) list"

definition declared_fields :: "string list" where
  "declared_fields =
     [''domain'', ''path'', ''expires'', ''maxAge'', ''httpOnly'', ''secure'', ''sameSite'']"

definition wire_name :: "string \<Rightarrow> string" where
  "wire_name k =
     (if k = ''domain'' then ''Domain''
      else if k = ''path'' then ''Path''
      else if k = ''expires'' then ''Expires''
      else if k = ''maxAge'' then ''Max-Age''
      else if k = ''httpOnly'' then ''HttpOnly''
      else if k = ''secure'' then ''Secure''
      else if k = ''sameSite'' then ''SameSite''
      else toLowerCase k)"

text \<open>The formatting of a date (\<^verbatim>\<open>new Date(v).toUTCString()\<close>) is a parameter
  \<open>fmt\<close> of the model.\<close>

definition opt_string :: "(jsval \<Rightarrow> string) \<Rightarrow> optval \<Rightarrow> string" where
  "opt_string fmt ov = (case ov of Plain v \<Rightarrow> to_string v | Date v \<Rightarrow> fmt v)"

definition render :: "(jsval \<Rightarrow> string) \<Rightarrow> string \<Rightarrow> optval \<Rightarrow> string option" where
  "render fmt k ov =
     (if ov = Plain (JBool True) then Some (wire_name k)
      else if ov = Plain (JBool False) then None
      else Some (wire_name k @ ''='' @ opt_string fmt ov))"

definition attr_segments :: "(jsval \<Rightarrow> string) \<Rightarrow> options \<Rightarrow> string list" where
  "attr_segments fmt opts =
     List.map_filter
       (\<lambda>k. case map_of opts k of None \<Rightarrow> None | Some ov \<Rightarrow> render fmt k ov)
       declared_fields
     @ List.map_filter
         (\<lambda>(k, ov). if k \<in> set declared_fields then None else render fmt k ov) opts"

fun attr_suffix :: "string list \<Rightarrow> string" where
  "attr_suffix [] = []"
| "attr_suffix (seg # segs) = ''; '' @ seg @ attr_suffix segs"

text \<open>Modelled from the spec: \<^verbatim>\<open>serialize(name, value, options)\<close>, the pair followed by
  the segments of the options.\<close>

definition serialize_opts :: "(jsval \<Rightarrow> string) \<Rightarrow> jsval \<Rightarrow> jsval \<Rightarrow> options \<Rightarrow> string" where
  "serialize_opts fmt name val opts = serialize name val @ attr_suffix (attr_segments fmt opts)"

section \<open>The module\<close>

text \<open>
  An optional parameter is an \<open>option\<close>: \<open>None\<close> is the argument left out (or
  \<^verbatim>\<open>undefined\<close>), for which a declared default applies.
\<close>

definition cookieHeaderToCookieRecord :: "string option \<Rightarrow> jsobj" where
  "cookieHeaderToCookieRecord arg =
     (let string = (case arg of None \<Rightarrow> [] | Some s \<Rightarrow> s)
      in object_assign [] (parse string))"

definition setCookieHeadersToCookieRecord :: "string list option \<Rightarrow> jsobj" where
  "setCookieHeadersToCookieRecord arg =
     (let setCookieHeaders = (case arg of None \<Rightarrow> [] | Some hs \<Rightarrow> hs)
      in foldl (\<lambda>result item. obj_assign (obj_assign [] result) item) []
           (map (\<lambda>string. cookieHeaderToCookieRecord (Some (first_str (split_delimiter string))))
              setCookieHeaders))"

text \<open>\<^verbatim>\<open>Object.fromEntries\<close> turns each first component into a property key.\<close>

definition cookieObjectsToCookieRecord :: "jsobj list option \<Rightarrow> jsobj" where
  "cookieObjectsToCookieRecord arg =
     (let cookieObjects = (case arg of None \<Rightarrow> [] | Some os \<Rightarrow> os)
      in fold (\<lambda>(k, v) acc. obj_set (to_string k) v acc)
           (map (\<lambda>obj. (get obj ''name'', get obj ''value'')) cookieObjects) [])"

text \<open>
  The casts \<^verbatim>\<open>data as SetCookieHeader[]\<close> and \<^verbatim>\<open>data as CookieObject[]\<close> check
  nothing. What goes wrong shows when the elements are used: \<^verbatim>\<open>string.split\<close> on an
  element that is not a string, and \<^verbatim>\<open>obj.name\<close> on \<^verbatim>\<open>null\<close> or
  \<^verbatim>\<open>undefined\<close>, throw a TypeError. Any other element has no property \<open>name\<close>
  or \<open>value\<close> and reads as an object without them.
\<close>

fun as_strings :: "jsval list \<Rightarrow> error + string list" where
  "as_strings [] = Inr []"
| "as_strings (JStr s # xs) = (case as_strings xs of Inl e \<Rightarrow> Inl e | Inr ss \<Rightarrow> Inr (s # ss))"
| "as_strings (_ # xs) = Inl TypeError"

fun as_objects :: "jsval list \<Rightarrow> error + jsobj list" where
  "as_objects [] = Inr []"
| "as_objects (JUndefined # xs) = Inl TypeError"
| "as_objects (JNull # xs) = Inl TypeError"
| "as_objects (x # xs) =
     (case as_objects xs of Inl e \<Rightarrow> Inl e
      | Inr os \<Rightarrow> Inr ((case x of JObj ps \<Rightarrow> ps | _ \<Rightarrow> []) # os))"

definition anyToCookieRecord :: "jsval \<Rightarrow> error + jsobj" where
  "anyToCookieRecord data =
     (if typeof data = ''object'' \<and> \<not> isArray data \<and> data \<noteq> JNull
        then Inr (own_entries data)
      else if typeof data = ''string''
        then Inr (cookieHeaderToCookieRecord (Some (str_of data)))
      else if isArray data \<and> typeof (first (elems data)) = ''string''
        then (case as_strings (elems data) of Inl e \<Rightarrow> Inl e
              | Inr hs \<Rightarrow> Inr (setCookieHeadersToCookieRecord (Some hs)))
      else if isArray data \<and> typeof (first (elems data)) = ''object''
                \<and> first (elems data) \<noteq> JNull
        then (case as_objects (elems data) of Inl e \<Rightarrow> Inl e
              | Inr os \<Rightarrow> Inr (cookieObjectsToCookieRecord (Some os)))
      else Inl UnknownFormat)"

definition cookieRecordToCookieHeader :: "jsobj option \<Rightarrow> string" where
  "cookieRecordToCookieHeader arg =
     (let cookieRecord = (case arg of None \<Rightarrow> [] | Some r \<Rightarrow> r)
      in join connector (map (\<lambda>(name, val). serialize (JStr name) val) cookieRecord))"

definition anyToCookieHeader :: "jsval \<Rightarrow> error + string" where
  "anyToCookieHeader data =
     (case anyToCookieRecord data of Inl e \<Rightarrow> Inl e
      | Inr r \<Rightarrow> Inr (cookieRecordToCookieHeader (Some r)))"

definition cookieRecordToCookieObjects :: "jsobj option \<Rightarrow> jsobj option \<Rightarrow> jsobj list" where
  "cookieRecordToCookieObjects arg attrs =
     (let cookieRecord = (case arg of None \<Rightarrow> [] | Some r \<Rightarrow> r);
          attributes = (case attrs of None \<Rightarrow> [] | Some a \<Rightarrow> a)
      in map (\<lambda>(name, val).
                obj_assign (obj_set ''value'' val (obj_set ''name'' (JStr name) [])) attributes)
           cookieRecord)"

text \<open>
  The constant \<^verbatim>\<open>cookiePropertyMap\<close> is an object literal, so the lookup
  \<^verbatim>\<open>cookiePropertyMap[lowerKey] || lowerKey\<close> also finds what the literal inherits:
  of the inherited names only \<^verbatim>\<open>constructor\<close> and \<^verbatim>\<open>__proto__\<close> are lowercase.
  The function and the object found there are used as a property key, that is, as their
  string form.
\<close>

definition cookiePropertyMap :: "(string \<times> string) list" where
  "cookiePropertyMap =
     [(''httponly'', ''httpOnly''), (''samesite'', ''sameSite''), (''max-age'', ''maxAge'')]"

definition prop_name :: "string \<Rightarrow> string" where
  "prop_name lowerKey =
     (case map_of cookiePropertyMap lowerKey of
        Some p \<Rightarrow> p
      | None \<Rightarrow>
          if lowerKey = ''constructor'' then ''function Object() { [native code] }''
          else if lowerKey = ''__proto__'' then ''[object Object]''
          else lowerKey)"

definition parse_flag :: "string \<Rightarrow> jsobj \<Rightarrow> jsobj" where
  "parse_flag flag result =
     (let kv = split_char CHR ''='' flag;
          key = first_str kv;
          val = second_str kv;
          lowerKey = toLowerCase key;
          propName = prop_name lowerKey
      in if propName = ''maxAge'' then obj_set ''maxAge'' (parseInt val) result
         else obj_set propName (if val = JUndefined then JBool True else val) result)"

definition setCookieHeadersToCookieObjects :: "string list option \<Rightarrow> jsobj option \<Rightarrow> jsobj list" where
  "setCookieHeadersToCookieObjects arg attrs =
     (let array = (case arg of None \<Rightarrow> [] | Some hs \<Rightarrow> hs);
          attributes = (case attrs of None \<Rightarrow> [] | Some a \<Rightarrow> a)
      in map (\<lambda>string.
                let parts = split_semi_ws string;
                    nameValue = first_str parts;
                    flags = tl parts;
                    nv = split_char CHR ''='' nameValue;
                    name = first_str nv;
                    val = second_str nv;
                    result = obj_set ''value'' val (obj_set ''name'' (JStr name) [])
                in obj_assign (obj_assign [] (fold parse_flag flags result)) attributes)
           array)"

text \<open>The assignment \<^verbatim>\<open>options[key] = val\<close> creates no property for the key
  \<^verbatim>\<open>__proto__\<close>, which is an accessor of every object.\<close>

definition add_option :: "string \<times> jsval \<Rightarrow> options \<Rightarrow> options" where
  "add_option kv opts =
     (case kv of (key, val) \<Rightarrow>
        if val = JUndefined then opts
        else if key = ''expires'' then obj_set ''expires'' (Date val) opts
        else if key = ''maxAge'' then obj_set ''maxAge'' (Plain val) opts
        else if key = ''__proto__'' then opts
        else obj_set key (Plain val) opts)"

definition build_options :: "jsobj \<Rightarrow> options" where
  "build_options rest = fold add_option rest []"

definition rest_of :: "jsobj \<Rightarrow> jsobj" where
  "rest_of merged = filter (\<lambda>(k, v). k \<noteq> ''name'' \<and> k \<noteq> ''value'') merged"

definition merge_attrs :: "jsobj \<Rightarrow> jsobj option \<Rightarrow> jsobj" where
  "merge_attrs obj attrs =
     obj_assign (obj_assign [] obj) (case attrs of None \<Rightarrow> [] | Some a \<Rightarrow> a)"

definition header_of_merged :: "(jsval \<Rightarrow> string) \<Rightarrow> jsobj \<Rightarrow> string" where
  "header_of_merged fmt merged =
     (let name = get merged ''name'';
          val = get merged ''value'';
          rest = rest_of merged;
          opts = build_options rest
      in serialize_opts fmt name val opts)"

definition cookieObjectsToSetCookieHeaders ::
    "(jsval \<Rightarrow> string) \<Rightarrow> jsobj list option \<Rightarrow> jsobj option \<Rightarrow> string list" where
  "cookieObjectsToSetCookieHeaders fmt arg attributes =
     (let cookieObjects = (case arg of None \<Rightarrow> [] | Some os \<Rightarrow> os)
      in map (\<lambda>obj. header_of_merged fmt (merge_attrs obj attributes)) cookieObjects)"

definition anyToCookieObjects :: "jsval \<Rightarrow> jsobj option \<Rightarrow> error + jsobj list" where
  "anyToCookieObjects data attributes =
     (if isArray data then
        (if typeof (first (elems data)) = ''object'' \<and> first (elems data) \<noteq> JNull
              \<and> \<not> isArray (first (elems data))
           then Inr (map (\<lambda>object. merge_attrs (own_entries object) attributes) (elems data))
         else if typeof (first (elems data)) = ''string''
           then (case as_strings (elems data) of Inl e \<Rightarrow> Inl e
                 | Inr hs \<Rightarrow> Inr (setCookieHeadersToCookieObjects (Some hs) attributes))
         else Inr [])
      else
        (case anyToCookieRecord data of Inl e \<Rightarrow> Inl e
         | Inr r \<Rightarrow>
             Inr (cookieRecordToCookieObjects (Some r)
                    (Some (case attributes of None \<Rightarrow> [] | Some a \<Rightarrow> a)))))"

definition anyToSetCookieHeaders ::
    "(jsval \<Rightarrow> string) \<Rightarrow> jsval \<Rightarrow> jsobj option \<Rightarrow> error + string list" where
  "anyToSetCookieHeaders fmt data attributes =
     (case anyToCookieObjects data attributes of Inl e \<Rightarrow> Inl e
      | Inr cookieObjects \<Rightarrow> Inr (cookieObjectsToSetCookieHeaders fmt (Some cookieObjects) None))"

section \<open>Notions used in the properties\<close>



text \<open>What \<^verbatim>\<open>cookieObjectsToSetCookieHeaders\<close> makes of one field of the merged record
  when it fills the options: nothing for the value \<^verbatim>\<open>undefined\<close>, a date for
  \<open>expires\<close>, the value itself otherwise.\<close>

definition opt_of :: "string \<Rightarrow> jsval \<Rightarrow> optval option" where
  "opt_of k v =
     (if v = JUndefined \<or> k = ''__proto__'' then None
      else Some (if k = ''expires'' then Date v else Plain v))"

text \<open>\<^verbatim>\<open>String.prototype.includes\<close>, as the tests of the module use it.\<close>

fun str_includes :: "string \<Rightarrow> string \<Rightarrow> bool" where
  "str_includes [] sub = (sub = [])"
| "str_includes (c # cs) sub = (take (length sub) (c # cs) = sub \<or> str_includes cs sub)"

text \<open>An object without the field of a given name.\<close>

definition drop_key :: "string \<Rightarrow> (string \<times> 'a) list \<Rightarrow> (string \<times> 'a) list" where
  "drop_key k ps = filter (\<lambda>kv. fst kv \<noteq> k) ps"

text \<open>The enumeration order of an object: no array index comes after another string key
  or after a greater index.\<close>

definition key_order :: "string \<Rightarrow> string \<Rightarrow> bool" where
  "key_order a b =
     (if is_array_index b then is_array_index a \<and> digits_value a \<le> digits_value b else True)"

definition canonical :: "(string \<times> 'a) list \<Rightarrow> bool" where
  "canonical ps = sorted_wrt (\<lambda>x y. key_order (fst x) (fst y)) ps"

text \<open>A field whose value is not \<^verbatim>\<open>undefined\<close>.\<close>

definition is_defined :: "string \<times> jsval \<Rightarrow> bool" where
  "is_defined kv = (snd kv \<noteq> JUndefined)"










text \<open>A sample date formatter, for concrete instances.\<close>

definition epoch_date :: "jsval \<Rightarrow> string" where
  "epoch_date v = ''Thu, 01 Jan 1970 00:00:00 GMT''"


section \<open>Basic facts\<close>

lemma parse_empty: "parse [] = []"
  by (simp add: parse_def)




subsection \<open>Setting and copying properties\<close>

lemma map_of_replace:
  "map_of (map (\<lambda>(k', v'). if k' = k then (k', v) else (k', v')) ps) =
     (if k \<in> fst ` set ps then (map_of ps)(k \<mapsto> v) else map_of ps)"
  by (induction ps) (auto simp: fun_eq_iff)

lemma map_of_insert_between:
  assumes "k \<notin> fst ` set ps"
  shows "map_of (takeWhile P ps @ (k, v) # dropWhile P ps) = (map_of ps)(k \<mapsto> v)"
proof -
  have "map_of ps = map_of (takeWhile P ps @ dropWhile P ps)" by simp
  also have "\<dots> = map_of (dropWhile P ps) ++ map_of (takeWhile P ps)"
    by (simp only: map_of_append)
  finally have split: "map_of ps = map_of (dropWhile P ps) ++ map_of (takeWhile P ps)" .
  have "set (takeWhile P ps) \<subseteq> set ps"
    by (auto dest: set_takeWhileD)
  with assms have "k \<notin> fst ` set (takeWhile P ps)"
    by blast
  then have "map_of (takeWhile P ps) k = None"
    by (simp add: map_of_eq_None_iff)
  then show ?thesis
    unfolding split by (auto simp: fun_eq_iff map_add_def split: option.splits)
qed

lemma map_of_obj_set: "map_of (obj_set k v ps) = (map_of ps)(k \<mapsto> v)"
proof (cases "has_key k ps")
  case True
  then show ?thesis
    by (simp add: obj_set_def map_of_replace has_key_def)
next
  case False
  then have nk: "k \<notin> fst ` set ps" by (simp add: has_key_def)
  then have none: "map_of ps k = None" by (simp add: map_of_eq_None_iff)
  show ?thesis
  proof (cases "is_array_index k")
    case True
    with False have "obj_set k v ps =
        takeWhile (\<lambda>(k', _). key_before k' k) ps @ (k, v) #
        dropWhile (\<lambda>(k', _). key_before k' k) ps"
      by (simp add: obj_set_def)
    then show ?thesis
      by (simp only: map_of_insert_between [OF nk])
  next
    case False
    with \<open>\<not> has_key k ps\<close> none show ?thesis
      by (auto simp: obj_set_def fun_eq_iff map_add_def split: option.splits)
  qed
qed

lemma keys_obj_set: "fst ` set (obj_set k v ps) = insert k (fst ` set ps)"
proof -
  have "dom (map_of (obj_set k v ps)) = insert k (dom (map_of ps))"
    by (simp add: map_of_obj_set)
  then show ?thesis by (simp add: dom_map_of_conv_image_fst)
qed

lemma fst_replace: "(fst \<circ> (\<lambda>(k', v'). if k' = k then (k', v) else (k', v'))) = fst"
  by (auto simp: fun_eq_iff)

lemma map_fst_replace:
  "map fst (map (\<lambda>(k', v'). if k' = k then (k', v) else (k', v')) ps) = map fst ps"
  by (simp add: fst_replace)

lemma distinct_obj_set:
  assumes "distinct (map fst ps)"
  shows "distinct (map fst (obj_set k v ps))"
proof (cases "has_key k ps")
  case True
  with assms show ?thesis by (simp add: obj_set_def fst_replace)
next
  case False
  then have nk: "k \<notin> fst ` set ps" by (simp add: has_key_def)
  let ?P = "\<lambda>(k', _::'a). key_before k' k"
  have d: "distinct (map fst (takeWhile ?P ps @ dropWhile ?P ps))" using assms by simp
  have "set (takeWhile ?P ps) \<subseteq> set ps" "set (dropWhile ?P ps) \<subseteq> set ps"
    by (auto dest: set_takeWhileD set_dropWhileD)
  with nk have k1: "k \<notin> fst ` set (takeWhile ?P ps)"
    and k2: "k \<notin> fst ` set (dropWhile ?P ps)"
    by blast+
  from d k1 k2 have "distinct (map fst (takeWhile ?P ps @ (k, v) # dropWhile ?P ps))"
    by (auto simp del: takeWhile_dropWhile_id)
  with False assms nk show ?thesis
    by (simp add: obj_set_def)
qed

lemma distinct_fold_obj_set:
  "distinct (map fst t) \<Longrightarrow> distinct (map fst (fold (\<lambda>(k, v) acc. obj_set k v acc) s t))"
  by (induction s arbitrary: t) (auto simp: distinct_obj_set)

lemma distinct_obj_assign:
  "distinct (map fst t) \<Longrightarrow> distinct (map fst (obj_assign t s))"
  by (simp add: obj_assign_def distinct_fold_obj_set)

lemma map_of_fold_obj_set:
  "map_of (fold (\<lambda>(k, v) acc. obj_set k v acc) s t) = map_of t ++ map_of (rev s)"
proof (induction s arbitrary: t)
  case Nil
  then show ?case by simp
next
  case (Cons a s)
  obtain k v where a: "a = (k, v)" by (cases a)
  have "map_of (fold (\<lambda>(k, v) acc. obj_set k v acc) (a # s) t)
        = map_of (obj_set k v t) ++ map_of (rev s)"
    using Cons.IH [of "obj_set k v t"] by (simp add: a)
  also have "\<dots> = map_of t ++ map_of (rev (a # s))"
    by (auto simp: a map_of_obj_set fun_eq_iff map_add_def split: option.splits)
  finally show ?case .
qed

lemma map_of_rev_distinct:
  "distinct (map fst s) \<Longrightarrow> map_of (rev s) = map_of s"
  by (simp add: map_of_inject_set rev_map [symmetric])

lemma map_of_obj_assign:
  "distinct (map fst s) \<Longrightarrow> map_of (obj_assign t s) = map_of t ++ map_of s"
  by (simp add: obj_assign_def map_of_fold_obj_set map_of_rev_distinct)

lemma map_of_obj_copy:
  "distinct (map fst s) \<Longrightarrow> map_of (obj_assign [] s) = map_of s"
  by (simp add: map_of_obj_assign)


lemma distinct_drop_key: "distinct (map fst ps) \<Longrightarrow> distinct (map fst (drop_key k ps))"
  by (simp add: drop_key_def distinct_map_filter)

lemma object_assign_Nil: "object_assign t [] = t"
  by (simp add: object_assign_def)

lemma object_assign_spread: "object_assign t s = obj_assign t (drop_key ''__proto__'' s)"
  unfolding object_assign_def obj_assign_def drop_key_def
  by (induction s arbitrary: t) (auto simp: obj_put_def)

lemma distinct_object_assign:
  "distinct (map fst t) \<Longrightarrow> distinct (map fst (object_assign t s))"
  by (simp add: object_assign_spread distinct_obj_assign)


subsection \<open>Records of headers\<close>

lemma first_str_Nil: "first_str [] = []"
  by (simp add: first_str_def)

lemma first_str_Cons: "first_str (p # ps) = p"
  by (simp add: first_str_def)

lemma first_str_cons_head: "first_str (cons_head c ps) = c # first_str ps"
  by (cases ps) (simp_all add: first_str_def)

lemma first_str_split_semi:
  "first_str (split_semi sw greedy False s) = takeWhile (\<lambda>c. c \<noteq> CHR '';'') s"
  by (induction s) (simp_all add: first_str_Cons first_str_cons_head)

lemma first_str_split_delimiter:
  "first_str (split_delimiter s) = takeWhile (\<lambda>c. c \<noteq> CHR '';'') s"
  by (simp add: split_delimiter_def first_str_split_semi)



lemma distinct_cookieHeaderToCookieRecord: "distinct (map fst (cookieHeaderToCookieRecord a))"
  by (simp add: cookieHeaderToCookieRecord_def distinct_object_assign)


lemma distinct_foldl_merge:
  "distinct (map fst acc) \<Longrightarrow>
   distinct (map fst (foldl (\<lambda>result item. obj_assign (obj_assign [] result) item) acc items))"
  by (induction items arbitrary: acc) (simp_all add: distinct_obj_assign)

lemma distinct_setCookieHeadersToCookieRecord:
  "distinct (map fst (setCookieHeadersToCookieRecord a))"
  by (simp add: setCookieHeadersToCookieRecord_def distinct_foldl_merge)

lemma setCookieHeadersToCookieRecord_snoc:
  "setCookieHeadersToCookieRecord (Some (hs @ [h])) =
     obj_assign (obj_assign [] (setCookieHeadersToCookieRecord (Some hs)))
       (cookieHeaderToCookieRecord (Some (first_str (split_delimiter h))))"
  by (simp add: setCookieHeadersToCookieRecord_def)

subsection \<open>Merged records and options\<close>

lemma distinct_merge_attrs: "distinct (map fst (merge_attrs obj attrs))"
  by (simp add: merge_attrs_def distinct_obj_assign)

lemma map_of_merge_attrs:
  assumes "distinct (map fst obj)" and "distinct (map fst attrs)"
  shows "map_of (merge_attrs obj (Some attrs)) = map_of obj ++ map_of attrs"
  using assms by (simp add: merge_attrs_def map_of_obj_assign)


lemma map_of_add_option:
  "map_of (add_option (k, v) opts) =
     (case opt_of k v of None \<Rightarrow> map_of opts | Some ov \<Rightarrow> (map_of opts)(k \<mapsto> ov))"
  by (simp add: add_option_def opt_of_def map_of_obj_set)

lemma map_of_fold_add_option:
  "distinct (map fst rest) \<Longrightarrow>
   map_of (fold add_option rest acc) k =
     (case map_of rest k of
        None \<Rightarrow> map_of acc k
      | Some v \<Rightarrow> (case opt_of k v of None \<Rightarrow> map_of acc k | Some ov \<Rightarrow> Some ov))"
proof (induction rest arbitrary: acc)
  case Nil
  then show ?case by simp
next
  case (Cons a rest)
  obtain k' v' where a: "a = (k', v')" by (cases a)
  from Cons.prems have d: "distinct (map fst rest)" and nk: "k' \<notin> fst ` set rest"
    by (simp_all add: a)
  from nk have none: "map_of rest k' = None"
    by (simp add: map_of_eq_None_iff)
  show ?case
    using Cons.IH [OF d, of "add_option (k', v') acc"] none
    by (auto simp: a map_of_add_option split: option.splits)
qed

lemma map_of_build_options:
  "distinct (map fst rest) \<Longrightarrow>
   map_of (build_options rest) k =
     (case map_of rest k of None \<Rightarrow> None | Some v \<Rightarrow> opt_of k v)"
  by (simp add: build_options_def map_of_fold_add_option split: option.splits)

lemma distinct_rest_of: "distinct (map fst m) \<Longrightarrow> distinct (map fst (rest_of m))"
  by (simp add: rest_of_def distinct_map_filter)

lemma map_of_rest_of:
  "map_of (rest_of m) k = (if k = ''name'' \<or> k = ''value'' then None else map_of m k)"
  unfolding rest_of_def by (induction m) auto

lemma options_of_merged:
  "distinct (map fst m) \<Longrightarrow>
   map_of (build_options (rest_of m)) k =
     (if k = ''name'' \<or> k = ''value'' then None
      else case map_of m k of None \<Rightarrow> None | Some v \<Rightarrow> opt_of k v)"
  by (simp add: map_of_build_options distinct_rest_of map_of_rest_of)

subsection \<open>Leaving a field out\<close>

lemma key_order_before: "key_order a b \<Longrightarrow> key_before b k \<Longrightarrow> key_before a k"
  by (auto simp: key_order_def key_before_def split: if_splits)

lemma takeWhile_filter_sorted:
  assumes "sorted_wrt R ps" and "\<And>a b. R a b \<Longrightarrow> P b \<Longrightarrow> P a"
  shows "takeWhile P ps = filter P ps"
  using assms(1)
proof (induction ps)
  case Nil
  then show ?case by simp
next
  case (Cons a ps)
  show ?case
  proof (cases "P a")
    case True
    with Cons show ?thesis by simp
  next
    case False
    have "\<not> P b" if "b \<in> set ps" for b
      using Cons.prems that assms(2) [of a b] False by auto
    then have "filter P ps = []" by (simp add: filter_empty_conv)
    with False show ?thesis by simp
  qed
qed

lemma dropWhile_filter_sorted:
  assumes "sorted_wrt R ps" and "\<And>a b. R a b \<Longrightarrow> P b \<Longrightarrow> P a"
  shows "dropWhile P ps = filter (\<lambda>x. \<not> P x) ps"
  using assms(1)
proof (induction ps)
  case Nil
  then show ?case by simp
next
  case (Cons a ps)
  show ?case
  proof (cases "P a")
    case True
    with Cons show ?thesis by simp
  next
    case False
    have "\<not> P b" if "b \<in> set ps" for b
      using Cons.prems that assms(2) [of a b] False by auto
    then have "filter (\<lambda>x. \<not> P x) ps = ps" by (simp add: filter_id_conv)
    with False show ?thesis by simp
  qed
qed

lemma canonical_take:
  "canonical ps \<Longrightarrow>
   takeWhile (\<lambda>(k', _). key_before k' k) ps = filter (\<lambda>(k', _). key_before k' k) ps"
  unfolding canonical_def
  by (rule takeWhile_filter_sorted [where R = "\<lambda>x y. key_order (fst x) (fst y)"])
    (auto dest: key_order_before)

lemma canonical_drop:
  "canonical ps \<Longrightarrow>
   dropWhile (\<lambda>(k', _). key_before k' k) ps = filter (\<lambda>x. \<not> (case x of (k', _) \<Rightarrow> key_before k' k)) ps"
  unfolding canonical_def
  by (rule dropWhile_filter_sorted [where R = "\<lambda>x y. key_order (fst x) (fst y)"])
    (auto dest: key_order_before)

lemma canonical_drop_key: "canonical ps \<Longrightarrow> canonical (drop_key k ps)"
  by (simp add: canonical_def drop_key_def sorted_wrt_filter)

lemma canonical_Nil: "canonical []"
  by (simp add: canonical_def)

lemma canonical_replace:
  "canonical ps \<Longrightarrow> canonical (map (\<lambda>(k', v'). if k' = k then (k', v) else (k', v')) ps)"
proof -
  have "fst ((\<lambda>(k', v'). if k' = k then (k', v) else (k', v')) x) = fst x" for x :: "string \<times> 'a"
    by (cases x) simp
  then show "canonical ps \<Longrightarrow> ?thesis"
    by (simp add: canonical_def sorted_wrt_map)
qed

lemma canonical_obj_set: "canonical ps \<Longrightarrow> canonical (obj_set k v ps)"
proof -
  assume c: "canonical ps"
  let ?P = "\<lambda>(k', _::'a). key_before k' k"
  show ?thesis
  proof (cases "has_key k ps")
    case True
    with c show ?thesis by (simp add: obj_set_def canonical_replace)
  next
    case nk: False
    show ?thesis
    proof (cases "is_array_index k")
      case True
      have tw: "takeWhile ?P ps = filter ?P ps" by (rule canonical_take [OF c])
      have dw: "dropWhile ?P ps = filter (\<lambda>x. \<not> ?P x) ps" by (rule canonical_drop [OF c])
      have s1: "sorted_wrt (\<lambda>x y. key_order (fst x) (fst y)) (filter ?P ps)"
        using c by (simp add: canonical_def sorted_wrt_filter)
      have s2: "sorted_wrt (\<lambda>x y. key_order (fst x) (fst y)) (filter (\<lambda>x. \<not> ?P x) ps)"
        using c by (simp add: canonical_def sorted_wrt_filter)
      have a: "key_order (fst x) k" if "x \<in> set (filter ?P ps)" for x
        using that True by (auto simp: key_order_def key_before_def)
      have b: "key_order k (fst y)" if "y \<in> set (filter (\<lambda>x. \<not> ?P x) ps)" for y
        using that True by (auto simp: key_order_def key_before_def)
      have ab: "key_order (fst x) (fst y)"
        if "x \<in> set (filter ?P ps)" "y \<in> set (filter (\<lambda>x. \<not> ?P x) ps)" for x y
        using that by (auto simp: key_order_def key_before_def)
      have "canonical (filter ?P ps @ (k, v) # filter (\<lambda>x. \<not> ?P x) ps)"
        unfolding canonical_def sorted_wrt_append
        using s1 s2 a b ab by auto
      with nk True show ?thesis by (simp add: obj_set_def tw dw)
    next
      case False
      have "key_order (fst x) k" for x :: "string \<times> 'a"
        using False by (simp add: key_order_def)
      then have "canonical (ps @ [(k, v)])"
        using c by (simp add: canonical_def sorted_wrt_append)
      with nk False show ?thesis by (simp add: obj_set_def)
    qed
  qed
qed

lemma canonical_fold_obj_set:
  "canonical t \<Longrightarrow> canonical (fold (\<lambda>(k, v) acc. obj_set k v acc) s t)"
  by (induction s arbitrary: t) (auto simp: canonical_obj_set)

lemma canonical_obj_assign: "canonical t \<Longrightarrow> canonical (obj_assign t s)"
  by (simp add: obj_assign_def canonical_fold_obj_set)

lemma has_key_drop_key: "has_key k (drop_key k0 ps) = (k \<noteq> k0 \<and> has_key k ps)"
  by (auto simp: has_key_def drop_key_def)

lemma drop_key_replace_same:
  "drop_key k (map (\<lambda>(k', v'). if k' = k then (k', v) else (k', v')) ps) = drop_key k ps"
  by (induction ps) (auto simp: drop_key_def case_prod_beta)

lemma drop_key_replace_other:
  "k \<noteq> k0 \<Longrightarrow>
   drop_key k0 (map (\<lambda>(k', v'). if k' = k then (k', v) else (k', v')) ps)
     = map (\<lambda>(k', v'). if k' = k then (k', v) else (k', v')) (drop_key k0 ps)"
  by (induction ps) (auto simp: drop_key_def case_prod_beta)

lemma drop_key_replace:
  "drop_key k0 (map (\<lambda>(k', v'). if k' = k then (k', v) else (k', v')) ps) =
     (if k = k0 then drop_key k0 ps
      else map (\<lambda>(k', v'). if k' = k then (k', v) else (k', v')) (drop_key k0 ps))"
  by (simp add: drop_key_replace_same drop_key_replace_other)

lemma drop_key_obj_set:
  assumes "canonical ps"
  shows "drop_key k0 (obj_set k v ps) =
           (if k = k0 then drop_key k0 ps else obj_set k v (drop_key k0 ps))"
proof (cases "has_key k ps")
  case True
  then show ?thesis
    by (simp add: obj_set_def has_key_drop_key drop_key_replace)
next
  case nk: False
  let ?P = "\<lambda>(k', _::'a). key_before k' k"
  show ?thesis
  proof (cases "is_array_index k")
    case True
    note c' = canonical_drop_key [OF assms, of k0]
    have l: "obj_set k v ps = filter ?P ps @ (k, v) # filter (\<lambda>x. \<not> ?P x) ps"
      using nk True by (simp add: obj_set_def canonical_take [OF assms] canonical_drop [OF assms])
    have r: "obj_set k v (drop_key k0 ps)
             = filter ?P (drop_key k0 ps) @ (k, v) # filter (\<lambda>x. \<not> ?P x) (drop_key k0 ps)"
      using nk True
      by (simp add: obj_set_def has_key_drop_key canonical_take [OF c'] canonical_drop [OF c'])
    have all: "filter ?P ps @ filter (\<lambda>x. \<not> ?P x) ps = takeWhile ?P ps @ dropWhile ?P ps"
      by (simp only: canonical_take [OF assms] canonical_drop [OF assms])
    show ?thesis
    proof (cases "k = k0")
      case True
      have "drop_key k0 (obj_set k v ps)
            = drop_key k0 (filter ?P ps @ filter (\<lambda>x. \<not> ?P x) ps)"
        unfolding l using True by (simp add: drop_key_def)
      also have "\<dots> = drop_key k0 ps"
        by (simp only: all takeWhile_dropWhile_id)
      finally show ?thesis using True by simp
    next
      case False
      then show ?thesis
        unfolding l r by (auto simp: drop_key_def conj_commute)
    qed
  next
    case False
    with nk show ?thesis
      by (simp add: obj_set_def has_key_drop_key) (simp add: drop_key_def)
  qed
qed

lemma drop_key_fold_obj_set:
  "canonical t \<Longrightarrow>
   drop_key k0 (fold (\<lambda>(k, v) acc. obj_set k v acc) s t)
     = fold (\<lambda>(k, v) acc. obj_set k v acc) (drop_key k0 s) (drop_key k0 t)"
proof (induction s arbitrary: t)
  case Nil
  then show ?case by (simp add: drop_key_def)
next
  case (Cons a s)
  obtain k v where a: "a = (k, v)" by (cases a)
  have "drop_key k0 (fold (\<lambda>(k, v) acc. obj_set k v acc) (a # s) t)
        = fold (\<lambda>(k, v) acc. obj_set k v acc) (drop_key k0 s) (drop_key k0 (obj_set k v t))"
    using Cons.IH [OF canonical_obj_set [OF Cons.prems]] by (simp add: a)
  also have "\<dots> = fold (\<lambda>(k, v) acc. obj_set k v acc) (drop_key k0 (a # s)) (drop_key k0 t)"
    by (simp add: drop_key_obj_set [OF Cons.prems] a) (simp add: drop_key_def)
  finally show ?case .
qed

lemma drop_key_obj_assign:
  "canonical t \<Longrightarrow> drop_key k0 (obj_assign t s) = obj_assign (drop_key k0 t) (drop_key k0 s)"
  by (simp add: obj_assign_def drop_key_fold_obj_set)

lemma drop_key_Nil: "drop_key k [] = []"
  by (simp add: drop_key_def)

lemma drop_key_merge_attrs:
  "drop_key k0 (merge_attrs obj attrs)
     = merge_attrs (drop_key k0 obj) (map_option (drop_key k0) attrs)"
proof -
  have c: "canonical (obj_assign [] obj)" by (simp add: canonical_obj_assign canonical_Nil)
  show ?thesis
    by (cases attrs)
      (simp_all add: merge_attrs_def drop_key_obj_assign [OF c]
        drop_key_obj_assign [OF canonical_Nil] drop_key_Nil)
qed

subsection \<open>Splitting strings\<close>























subsection \<open>The objects of parsed headers\<close>

lemma obj_set_Nil: "obj_set k v [] = [(k, v)]"
  by (simp add: obj_set_def has_key_def)

lemma map_of_setCookieHeadersToCookieRecord_snoc:
  "map_of (setCookieHeadersToCookieRecord (Some (hs @ [h])))
     = map_of (setCookieHeadersToCookieRecord (Some hs))
         ++ map_of (cookieHeaderToCookieRecord (Some (takeWhile (\<lambda>c. c \<noteq> CHR '';'') h)))"
proof -
  have "map_of (setCookieHeadersToCookieRecord (Some (hs @ [h])))
        = map_of (obj_assign [] (setCookieHeadersToCookieRecord (Some hs)))
            ++ map_of (cookieHeaderToCookieRecord (Some (first_str (split_delimiter h))))"
    by (simp only: setCookieHeadersToCookieRecord_snoc
        map_of_obj_assign [OF distinct_cookieHeaderToCookieRecord])
  also have "\<dots> = map_of (setCookieHeadersToCookieRecord (Some hs))
            ++ map_of (cookieHeaderToCookieRecord (Some (takeWhile (\<lambda>c. c \<noteq> CHR '';'') h)))"
    by (simp only: map_of_obj_copy [OF distinct_setCookieHeadersToCookieRecord]
        first_str_split_delimiter)
  finally show ?thesis .
qed









subsection \<open>Numbers and their decimal form\<close>
















section \<open>Calls with no argument\<close>

text \<open>
  C1, counterexample: \<^verbatim>\<open>anyToCookieRecord()\<close> receives \<^verbatim>\<open>undefined\<close>, which is no
  object, no string and no array, and throws the error of the unknown format instead of
  returning an empty collection.
\<close>

theorem anyToCookieRecord_no_argument_throws:
  "anyToCookieRecord JUndefined = Inl UnknownFormat"
  by (simp add: anyToCookieRecord_def typeof_def isArray_def)

text \<open>
  C1, as amended: the seven functions whose parameters all have a declared default
  return the empty string or the empty collection when they are called with no argument;
  the four universal converters, whose parameter \<open>data\<close> is required, throw the error
  of the unknown format.
\<close>

theorem no_argument_calls:
  "cookieHeaderToCookieRecord None = []
   \<and> setCookieHeadersToCookieRecord None = []
   \<and> cookieObjectsToCookieRecord None = []
   \<and> cookieRecordToCookieHeader None = []
   \<and> cookieRecordToCookieObjects None None = []
   \<and> setCookieHeadersToCookieObjects None None = []
   \<and> cookieObjectsToSetCookieHeaders fmt None None = []
   \<and> anyToCookieRecord JUndefined = Inl UnknownFormat
   \<and> anyToCookieHeader JUndefined = Inl UnknownFormat
   \<and> anyToCookieObjects JUndefined None = Inl UnknownFormat
   \<and> anyToSetCookieHeaders fmt JUndefined None = Inl UnknownFormat"
  by (simp add: cookieHeaderToCookieRecord_def setCookieHeadersToCookieRecord_def
      cookieObjectsToCookieRecord_def cookieRecordToCookieHeader_def
      cookieRecordToCookieObjects_def setCookieHeadersToCookieObjects_def
      cookieObjectsToSetCookieHeaders_def anyToCookieRecord_def anyToCookieHeader_def
      anyToCookieObjects_def anyToSetCookieHeaders_def parse_empty object_assign_Nil
      typeof_def isArray_def)

section \<open>The name and the value of a parsed header\<close>

text \<open>
  C7, the code at the failing input: \<^verbatim>\<open>nameValue.split('=')\<close> splits at every
  \<^verbatim>\<open>=\<close> and the destructuring keeps the first two parts, so the header
  \<^verbatim>\<open>a=b=c\<close> gives the value \<^verbatim>\<open>b\<close>, not \<^verbatim>\<open>b=c\<close>.
\<close>

theorem value_cut_at_second_equals:
  "setCookieHeadersToCookieObjects (Some [''a=b=c'']) None
     = [[(''name'', JStr ''a''), (''value'', JStr ''b'')]]"
  by (simp add: setCookieHeadersToCookieObjects_def split_semi_ws_def first_str_def
      second_str_def obj_set_def obj_assign_def has_key_def is_array_index_def is_digit_def)

section \<open>Arrays the sniffing does not recognize\<close>

text \<open>
  C9: for an array whose first element is neither a string nor a non-null object (the
  empty array included, whose first element reads as \<^verbatim>\<open>undefined\<close>),
  \<^verbatim>\<open>anyToCookieObjects\<close> returns the empty array and \<^verbatim>\<open>anyToCookieRecord\<close>
  falls through to its \<^verbatim>\<open>throw\<close>.
\<close>

theorem unsniffable_array:
  assumes "typeof (first xs) \<noteq> ''string''"
    and "typeof (first xs) \<noteq> ''object'' \<or> first xs = JNull"
  shows "anyToCookieObjects (JArr xs) attrs = Inr []
         \<and> anyToCookieRecord (JArr xs) = Inl UnknownFormat"
  using assms
  by (auto simp: anyToCookieObjects_def anyToCookieRecord_def isArray_def elems_def typeof_def)

theorem unsniffable_array_witness:
  "typeof (first []) \<noteq> ''string''
   \<and> anyToCookieObjects (JArr []) None = Inr []
   \<and> anyToCookieRecord (JArr []) = Inl UnknownFormat
   \<and> anyToCookieObjects (JArr [JNum 7, JStr ''a=1'']) None = Inr []
   \<and> anyToCookieRecord (JArr [JNum 7, JStr ''a=1'']) = Inl UnknownFormat"
  using unsniffable_array [of "[]" None] unsniffable_array [of "[JNum 7, JStr ''a=1'']" None]
  by (simp add: first_def typeof_def)

section \<open>The error of the unknown format\<close>










section \<open>Merging the records of several headers\<close>

lemma setCookieHeadersToCookieRecord_example:
  "setCookieHeadersToCookieRecord (Some [''a=1'', ''a=2'']) = [(''a'', JStr ''2'')]"
  by code_simp

text \<open>
  C5: \<^verbatim>\<open>setCookieHeadersToCookieRecord\<close> folds the array from the left, and the record
  of a further header, which \<^verbatim>\<open>cookieHeaderToCookieRecord\<close> makes of the text before
  its first semicolon, is laid over what the headers before it gave: a later entry overwrites an earlier one of the same
  name. The empty array gives the empty mapping, and \<^verbatim>\<open>['a=1','a=2']\<close> gives
  \<^verbatim>\<open>{a:'2'}\<close>.
\<close>

theorem later_headers_overwrite:
  "setCookieHeadersToCookieRecord (Some []) = []
   \<and> setCookieHeadersToCookieRecord (Some [''a=1'', ''a=2'']) = [(''a'', JStr ''2'')]
   \<and> map_of (setCookieHeadersToCookieRecord (Some (hs @ [h])))
       = map_of (setCookieHeadersToCookieRecord (Some hs))
           ++ map_of (cookieHeaderToCookieRecord (Some (takeWhile (\<lambda>c. c \<noteq> CHR '';'') h)))"
proof -
  have e: "setCookieHeadersToCookieRecord (Some []) = []"
    by (simp add: setCookieHeadersToCookieRecord_def)
  from e setCookieHeadersToCookieRecord_example
    map_of_setCookieHeadersToCookieRecord_snoc [of hs h]
  show ?thesis by blast
qed

theorem later_headers_overwrite_witness:
  "map_of (setCookieHeadersToCookieRecord (Some ([''a=1; Path=/'', ''b=2''] @ [''a=3; Secure''])))
     = map_of (setCookieHeadersToCookieRecord (Some [''a=1; Path=/'', ''b=2'']))
         ++ map_of (cookieHeaderToCookieRecord
                      (Some (takeWhile (\<lambda>c. c \<noteq> CHR '';'') ''a=3; Secure'')))"
  using later_headers_overwrite [of "[''a=1; Path=/'', ''b=2'']" "''a=3; Secure''"]
  by simp

section \<open>Attributes over the fields of an object\<close>

lemma attrs_override_example:
  "cookieObjectsToSetCookieHeaders fmt
     (Some [[(''name'', JStr ''session''), (''value'', JStr ''abc''), (''path'', JStr ''/''),
             (''httpOnly'', JBool True)]])
     (Some [(''path'', JStr ''/api''), (''secure'', JBool True),
            (''domain'', JStr ''example.com'')])
   = [''session=abc; Domain=example.com; Path=/api; HttpOnly; Secure'']"
  by code_simp

lemma attrs_override_two_objects:
  "cookieObjectsToSetCookieHeaders fmt
     (Some [[(''name'', JStr ''a''), (''value'', JStr ''1''), (''secure'', JBool False)],
            [(''name'', JStr ''b''), (''value'', JStr ''2''), (''path'', JStr ''/'')]])
     (Some [(''secure'', JBool True)])
   = [''a=1; Secure'', ''b=2; Path=/; Secure'']"
  by code_simp

text \<open>
  C6: in \<^verbatim>\<open>cookieObjectsToSetCookieHeaders\<close> the caller's attributes are laid over the
  fields of each object of the array, so a key of both has the value of the attributes
  and a field the attributes do not name keeps its own; the header of each object is
  written from the name, the value and the other fields of its merged record. For the object
  \<^verbatim>\<open>{name:'session',value:'abc',path:'/',httpOnly:true}\<close> and the attributes
  \<^verbatim>\<open>{path:'/api', secure:true, domain:'example.com'}\<close> the header contains
  \<^verbatim>\<open>Path=/api\<close>, \<^verbatim>\<open>Domain=example.com\<close>, \<^verbatim>\<open>Secure\<close> and
  \<^verbatim>\<open>HttpOnly\<close>.
\<close>

theorem attrs_override_fields:
  assumes "list_all (\<lambda>obj. distinct (map fst obj)) objs" and "distinct (map fst attrs)"
  shows "cookieObjectsToSetCookieHeaders fmt (Some objs) (Some attrs) =
        map (\<lambda>obj. serialize_opts fmt
                     (get (merge_attrs obj (Some attrs)) ''name'')
                     (get (merge_attrs obj (Some attrs)) ''value'')
                     (build_options (rest_of (merge_attrs obj (Some attrs))))) objs
    \<and> list_all (\<lambda>obj. map_of (merge_attrs obj (Some attrs)) = map_of obj ++ map_of attrs) objs
    \<and> list_all (\<lambda>obj. map_of (build_options (rest_of (merge_attrs obj (Some attrs)))) k =
        (if k = ''name'' \<or> k = ''value'' then None
         else case (map_of obj ++ map_of attrs) k of None \<Rightarrow> None | Some v \<Rightarrow> opt_of k v)) objs
    \<and> cookieObjectsToSetCookieHeaders fmt
         (Some [[(''name'', JStr ''session''), (''value'', JStr ''abc''), (''path'', JStr ''/''),
                 (''httpOnly'', JBool True)]])
         (Some [(''path'', JStr ''/api''), (''secure'', JBool True),
                (''domain'', JStr ''example.com'')])
       = [''session=abc; Domain=example.com; Path=/api; HttpOnly; Secure'']
    \<and> list_all (str_includes ''session=abc; Domain=example.com; Path=/api; HttpOnly; Secure'')
         [''Path=/api'', ''Domain=example.com'', ''Secure'', ''HttpOnly'']
    \<and> cookieObjectsToSetCookieHeaders fmt
         (Some [[(''name'', JStr ''a''), (''value'', JStr ''1''), (''secure'', JBool False)],
                [(''name'', JStr ''b''), (''value'', JStr ''2''), (''path'', JStr ''/'')]])
         (Some [(''secure'', JBool True)])
       = [''a=1; Secure'', ''b=2; Path=/; Secure'']"
proof -
  have m: "map_of (merge_attrs obj (Some attrs)) = map_of obj ++ map_of attrs"
    if "obj \<in> set objs" for obj
    using assms that by (intro map_of_merge_attrs) (auto simp: list_all_iff)
  have o: "map_of (build_options (rest_of (merge_attrs obj (Some attrs)))) k =
        (if k = ''name'' \<or> k = ''value'' then None
         else case (map_of obj ++ map_of attrs) k of None \<Rightarrow> None | Some v \<Rightarrow> opt_of k v)"
    if "obj \<in> set objs" for obj
    by (simp only: options_of_merged [OF distinct_merge_attrs] m [OF that])
  have h: "cookieObjectsToSetCookieHeaders fmt (Some objs) (Some attrs) =
        map (\<lambda>obj. serialize_opts fmt
                     (get (merge_attrs obj (Some attrs)) ''name'')
                     (get (merge_attrs obj (Some attrs)) ''value'')
                     (build_options (rest_of (merge_attrs obj (Some attrs))))) objs"
    by (simp add: cookieObjectsToSetCookieHeaders_def header_of_merged_def)
  have i: "list_all (str_includes ''session=abc; Domain=example.com; Path=/api; HttpOnly; Secure'')
         [''Path=/api'', ''Domain=example.com'', ''Secure'', ''HttpOnly'']"
    by code_simp
  from m have m': "list_all (\<lambda>obj. map_of (merge_attrs obj (Some attrs)) = map_of obj ++ map_of attrs) objs"
    by (simp add: list_all_iff)
  from o have o': "list_all (\<lambda>obj. map_of (build_options (rest_of (merge_attrs obj (Some attrs)))) k =
        (if k = ''name'' \<or> k = ''value'' then None
         else case (map_of obj ++ map_of attrs) k of None \<Rightarrow> None | Some v \<Rightarrow> opt_of k v)) objs"
    by (simp add: list_all_iff)
  from h m' o' i attrs_override_example attrs_override_two_objects show ?thesis by blast
qed

theorem attrs_override_fields_witness:
  "list_all (\<lambda>obj. distinct (map fst obj))
     [[(''name'', JStr ''session''), (''value'', JStr ''abc''), (''path'', JStr ''/''),
       (''httpOnly'', JBool True)],
      [(''name'', JStr ''id''), (''value'', JStr ''42'')]]
   \<and> distinct (map fst [(''path'', JStr ''/api''), (''secure'', JBool True)])
   \<and> list_all (\<lambda>obj. map_of (merge_attrs obj (Some [(''path'', JStr ''/api''), (''secure'', JBool True)]))
                     = map_of obj ++ map_of [(''path'', JStr ''/api''), (''secure'', JBool True)])
       [[(''name'', JStr ''session''), (''value'', JStr ''abc''), (''path'', JStr ''/''),
         (''httpOnly'', JBool True)],
        [(''name'', JStr ''id''), (''value'', JStr ''42'')]]
   \<and> cookieObjectsToSetCookieHeaders epoch_date
        (Some [[(''name'', JStr ''session''), (''value'', JStr ''abc''), (''path'', JStr ''/''),
                (''httpOnly'', JBool True)],
               [(''name'', JStr ''id''), (''value'', JStr ''42'')]])
        (Some [(''path'', JStr ''/api''), (''secure'', JBool True)])
      = [''session=abc; Path=/api; HttpOnly; Secure'', ''id=42; Path=/api; Secure'']"
proof -
  have d1: "list_all (\<lambda>obj. distinct (map fst obj))
     [[(''name'', JStr ''session''), (''value'', JStr ''abc''), (''path'', JStr ''/''),
       (''httpOnly'', JBool True)],
      [(''name'', JStr ''id''), (''value'', JStr ''42'')]]"
    by code_simp
  have d2: "distinct (map fst [(''path'', JStr ''/api''), (''secure'', JBool True)])"
    by code_simp
  have e: "cookieObjectsToSetCookieHeaders epoch_date
        (Some [[(''name'', JStr ''session''), (''value'', JStr ''abc''), (''path'', JStr ''/''),
                (''httpOnly'', JBool True)],
               [(''name'', JStr ''id''), (''value'', JStr ''42'')]])
        (Some [(''path'', JStr ''/api''), (''secure'', JBool True)])
      = [''session=abc; Path=/api; HttpOnly; Secure'', ''id=42; Path=/api; Secure'']"
    by code_simp
  from attrs_override_fields [OF d1 d2, of epoch_date "''path''"] d1 d2 e
  show ?thesis by blast
qed

section \<open>Fields whose value is undefined\<close>

lemma add_option_undefined: "add_option (k, JUndefined) opts = opts"
  by (simp add: add_option_def)

lemma fold_add_option_defined:
  "fold add_option (filter is_defined rest) acc = fold add_option rest acc"
  by (induction rest arbitrary: acc) (auto simp: is_defined_def add_option_undefined)

lemma build_options_defined: "build_options (filter is_defined rest) = build_options rest"
  by (simp add: build_options_def fold_add_option_defined)

lemma rest_of_filter: "rest_of (filter P m) = filter P (rest_of m)"
  unfolding rest_of_def by (induction m) auto

lemma map_of_filter_defined:
  "distinct (map fst m) \<Longrightarrow>
   map_of (filter is_defined m) k =
     (case map_of m k of None \<Rightarrow> None | Some v \<Rightarrow> if v = JUndefined then None else Some v)"
proof (induction m)
  case Nil
  then show ?case by simp
next
  case (Cons a m)
  obtain k' v' where a: "a = (k', v')" by (cases a)
  from Cons.prems have "k' \<notin> fst ` set m" by (simp add: a)
  then have "map_of m k' = None" by (simp add: map_of_eq_None_iff)
  with Cons show ?case by (auto simp: a is_defined_def)
qed

lemma get_filter_defined:
  "distinct (map fst m) \<Longrightarrow> get (filter is_defined m) k = get m k"
  by (simp add: get_def map_of_filter_defined split: option.splits)

lemma header_of_merged_defined:
  "distinct (map fst m) \<Longrightarrow>
   header_of_merged fmt (filter is_defined m) = header_of_merged fmt m"
  by (simp add: header_of_merged_def get_filter_defined rest_of_filter build_options_defined)

lemma filter_defined_drop_key:
  assumes "distinct (map fst m)" and "get m k = JUndefined"
  shows "filter is_defined (drop_key k m) = filter is_defined m"
proof -
  have "is_defined x \<Longrightarrow> fst x \<noteq> k" if "x \<in> set m" for x
  proof
    assume d: "is_defined x" and e: "fst x = k"
    from that e have "(k, snd x) \<in> set m" by (cases x) auto
    with assms(1) have "map_of m k = Some (snd x)" by simp
    with assms(2) d show False by (simp add: get_def is_defined_def)
  qed
  then have "filter (\<lambda>x. fst x \<noteq> k \<and> is_defined x) m = filter is_defined m"
    by (intro filter_cong) auto
  then show ?thesis by (simp add: drop_key_def)
qed

lemma header_of_merged_drop_key:
  assumes "distinct (map fst m)" and "get m k = JUndefined"
  shows "header_of_merged fmt (drop_key k m) = header_of_merged fmt m"
proof -
  have "header_of_merged fmt (drop_key k m)
        = header_of_merged fmt (filter is_defined (drop_key k m))"
    by (simp add: header_of_merged_defined [OF distinct_drop_key [OF assms(1)]])
  also have "\<dots> = header_of_merged fmt (filter is_defined m)"
    by (simp only: filter_defined_drop_key [OF assms])
  also have "\<dots> = header_of_merged fmt m"
    by (rule header_of_merged_defined [OF assms(1)])
  finally show ?thesis .
qed

lemma headers_without_key:
  assumes "list_all (\<lambda>obj. get (merge_attrs obj attrs) k = JUndefined) objs"
  shows "cookieObjectsToSetCookieHeaders fmt (Some (map (drop_key k) objs))
           (map_option (drop_key k) attrs)
         = cookieObjectsToSetCookieHeaders fmt (Some objs) attrs"
proof -
  have "header_of_merged fmt (merge_attrs (drop_key k obj) (map_option (drop_key k) attrs))
        = header_of_merged fmt (merge_attrs obj attrs)" if "obj \<in> set objs" for obj
  proof -
    from assms that have u: "get (merge_attrs obj attrs) k = JUndefined"
      by (simp add: list_all_iff)
    show ?thesis
      by (simp only: drop_key_merge_attrs [symmetric]
          header_of_merged_drop_key [OF distinct_merge_attrs u])
  qed
  then show ?thesis
    by (simp add: cookieObjectsToSetCookieHeaders_def)
qed

text \<open>
  C10, counterexample: setting a field to \<^verbatim>\<open>undefined\<close> in the attributes is not like
  leaving it out of the attributes. The \<^verbatim>\<open>undefined\<close> still overrides the path of the
  object and nothing is written, where the attributes without the key leave
  \<^verbatim>\<open>Path=/\<close> in the header.
\<close>

theorem undefined_in_attrs_hides_field:
  "cookieObjectsToSetCookieHeaders epoch_date
     (Some [[(''name'', JStr ''a''), (''value'', JStr ''b''), (''path'', JStr ''/'')]])
     (Some [(''path'', JUndefined)])
   = [''a=b'']
   \<and> cookieObjectsToSetCookieHeaders epoch_date
       (Some [[(''name'', JStr ''a''), (''value'', JStr ''b''), (''path'', JStr ''/'')]])
       (Some [])
     = [''a=b; Path=/'']"
  by code_simp

text \<open>
  C10, as amended: a key of the merged record whose value is \<^verbatim>\<open>undefined\<close> is skipped:
  the headers are those of the merged records with every such field left out, the
  options hold nothing under such a key, and the headers are the same as when the key is
  left out of both the objects and the attributes.
\<close>

theorem undefined_fields_skipped:
  "cookieObjectsToSetCookieHeaders fmt (Some objs) attrs =
     map (\<lambda>obj. header_of_merged fmt (filter is_defined (merge_attrs obj attrs))) objs
   \<and> (map_of (merge_attrs obj attrs) k = Some JUndefined \<longrightarrow>
        map_of (build_options (rest_of (merge_attrs obj attrs))) k = None)
   \<and> (list_all (\<lambda>obj. get (merge_attrs obj attrs) k = JUndefined) objs \<longrightarrow>
        cookieObjectsToSetCookieHeaders fmt (Some objs) attrs
        = cookieObjectsToSetCookieHeaders fmt (Some (map (drop_key k) objs))
            (map_option (drop_key k) attrs))"
proof -
  have "map_of (merge_attrs obj attrs) k = Some JUndefined \<Longrightarrow>
        map_of (build_options (rest_of (merge_attrs obj attrs))) k = None"
    by (simp add: options_of_merged [OF distinct_merge_attrs] opt_of_def)
  moreover have "cookieObjectsToSetCookieHeaders fmt (Some objs) attrs =
     map (\<lambda>obj. header_of_merged fmt (filter is_defined (merge_attrs obj attrs))) objs"
    by (simp add: cookieObjectsToSetCookieHeaders_def
        header_of_merged_defined [OF distinct_merge_attrs])
  ultimately show ?thesis
    using headers_without_key [of attrs k objs fmt] by simp
qed

theorem undefined_fields_skipped_witness:
  "map_of (merge_attrs [(''name'', JStr ''a''), (''value'', JStr ''b''), (''path'', JStr ''/'')]
             (Some [(''path'', JUndefined)])) ''path'' = Some JUndefined
   \<and> map_of (build_options (rest_of (merge_attrs
          [(''name'', JStr ''a''), (''value'', JStr ''b''), (''path'', JStr ''/'')]
          (Some [(''path'', JUndefined)])))) ''path'' = None
   \<and> list_all (\<lambda>obj. get (merge_attrs obj (Some [(''path'', JUndefined)])) ''path'' = JUndefined)
        [[(''name'', JStr ''a''), (''value'', JStr ''b''), (''path'', JStr ''/'')]]
   \<and> cookieObjectsToSetCookieHeaders epoch_date
        (Some [[(''name'', JStr ''a''), (''value'', JStr ''b''), (''path'', JStr ''/'')]])
        (Some [(''path'', JUndefined)])
      = cookieObjectsToSetCookieHeaders epoch_date
          (Some (map (drop_key ''path'')
                   [[(''name'', JStr ''a''), (''value'', JStr ''b''), (''path'', JStr ''/'')]]))
          (map_option (drop_key ''path'') (Some [(''path'', JUndefined)]))"
proof -
  have m: "map_of (merge_attrs [(''name'', JStr ''a''), (''value'', JStr ''b''), (''path'', JStr ''/'')]
             (Some [(''path'', JUndefined)])) ''path'' = Some JUndefined"
    by code_simp
  have l: "list_all (\<lambda>obj. get (merge_attrs obj (Some [(''path'', JUndefined)])) ''path'' = JUndefined)
        [[(''name'', JStr ''a''), (''value'', JStr ''b''), (''path'', JStr ''/'')]]"
    by code_simp
  from undefined_fields_skipped [of epoch_date
        "[[(''name'', JStr ''a''), (''value'', JStr ''b''), (''path'', JStr ''/'')]]"
        "Some [(''path'', JUndefined)]"
        "[(''name'', JStr ''a''), (''value'', JStr ''b''), (''path'', JStr ''/'')]" "''path''"]
  show ?thesis using m l by blast
qed

section \<open>The record of headers and the record of their objects\<close>




section \<open>From a record to a header and back\<close>




section \<open>From an object to a header and back\<close>























end
